theory Spec2Isabelle
  imports Main "HOL-Library.Word" "HOL-Library.Sublist"
begin

unbundle bit_operations_syntax

section \<open>Strings and numbers of the source language\<close>

text \<open>
  A TypeScript string is a sequence of UTF-16 code units. \<^verbatim>\<open>s.split("")\<close> yields the
  code units of \<open>s\<close> in order, each as a one-unit string, and \<^verbatim>\<open>b.charCodeAt(0)\<close>
  reads that unit as an integer between 0 and 65535. The empty string splits into the
  empty array.
\<close>

type_synonym code_unit = "16 word"
type_synonym js_string = "code_unit list"

definition charCodeAt0 :: "code_unit \<Rightarrow> int" where
  "charCodeAt0 b = uint b"

text \<open>String literals of the source, all of them ASCII.\<close>

definition utf16 :: "string \<Rightarrow> js_string" where
  "utf16 cs = map of_char cs"

text \<open>
  Numbers are modelled as mathematical integers. The bitwise operators first convert
  their operands with the language's \<open>ToInt32\<close> (reduce modulo \<open>2^32\<close>, then read the
  result as two's complement), and their result is again a signed 32-bit integer. The
  operators \<^verbatim>\<open>-\<close> and \<^verbatim>\<open>+\<close> are the arithmetic of double-precision numbers, which is
  exact on integers of magnitude below \<open>2^53\<close>; lemma \<open>hash_step_exact\<close> below shows
  that the hash never leaves that range.
\<close>

definition ToInt32 :: "int \<Rightarrow> int" where
  "ToInt32 x = (let m = x mod 2 ^ 32 in if 2 ^ 31 \<le> m then m - 2 ^ 32 else m)"

definition shl :: "int \<Rightarrow> nat \<Rightarrow> int" where
  "shl a n = ToInt32 (ToInt32 a * 2 ^ (n mod 32))"

definition band :: "int \<Rightarrow> int \<Rightarrow> int" where
  "band a b = ToInt32 a AND ToInt32 b"

section \<open>roku-app-map.ts\<close>

subsection \<open>hashCode\<close>

text \<open>
  \<^verbatim>\<open>s.split("").reduce((a, b) => { a = (a << 5) - a + b.charCodeAt(0); return a & a; }, 0)\<close>
\<close>

definition hash_body :: "int \<Rightarrow> code_unit \<Rightarrow> int" where
  "hash_body a b = shl a 5 - a + charCodeAt0 b"

definition hash_step :: "int \<Rightarrow> code_unit \<Rightarrow> int" where
  "hash_step a b = (let a' = hash_body a b in band a' a')"

definition hashCode :: "js_string \<Rightarrow> int" where
  "hashCode s = foldl hash_step 0 s"

text \<open>
  The same loop read operationally: \<^verbatim>\<open>reduce\<close> visits the code units from left to
  right, and a run from accumulator \<open>a\<close> over the remaining units ends with result \<open>r\<close>.
  A call of \<open>hashCode\<close> is a run that starts from the initial value 0.
\<close>

inductive reduce_run :: "int \<Rightarrow> code_unit list \<Rightarrow> int \<Rightarrow> bool" where
  finished: "reduce_run a [] a"
| round: "reduce_run (hash_step a b) bs r \<Longrightarrow> reduce_run a (b # bs) r"

definition hashCode_run :: "js_string \<Rightarrow> int \<Rightarrow> bool" where
  "hashCode_run s r = reduce_run 0 s r"

text \<open>
  The hash in the words of the specification, for comparison with \<open>hashCode\<close>: a
  rolling hash that multiplies by 31 and adds the character code in every round, in
  32-bit arithmetic that wraps around.
\<close>

definition rolling_hash31 :: "js_string \<Rightarrow> 32 word" where
  "rolling_hash31 s = foldl (\<lambda>h c. h * 31 + ucast c) 0 s"

subsection \<open>RokuApp and MappedApp\<close>

text \<open>
  \<open>RokuApp\<close> is the record of the device driver: \<^verbatim>\<open>{ id, name, type, version }\<close>, all
  strings. \<open>MappedApp\<close> is the interface of the source. Field names carry a suffix,
  \<open>_r\<close> for the raw record and \<open>_m\<close> for the mapped one.
\<close>

record RokuApp =
  id_r :: js_string
  name_r :: js_string
  type_r :: js_string
  version_r :: js_string

record MappedApp =
  id_m :: int
  rokuAppId :: js_string
  name_m :: js_string
  type_m :: js_string
  version_m :: js_string

text \<open>
  \<^verbatim>\<open>apps.map((a) => ({ ...a, rokuAppId: a.id, id: hashCode(a.id) }))\<close>: the spread
  copies \<open>name\<close>, \<open>type\<close> and \<open>version\<close> (and the string \<open>id\<close>, which the last
  property overwrites with the hash).
\<close>

definition createMappedApps :: "RokuApp list \<Rightarrow> MappedApp list" where
  "createMappedApps apps =
     map (\<lambda>a. \<lparr> id_m = hashCode (id_r a), rokuAppId = id_r a,
                name_m = name_r a, type_m = type_r a, version_m = version_r a \<rparr>) apps"

text \<open>\<^verbatim>\<open>createMappedApps([app])[0]\<close>\<close>

definition asMappedApp :: "RokuApp \<Rightarrow> MappedApp" where
  "asMappedApp app = createMappedApps [app] ! 0"

subsection \<open>RokuAppMap\<close>

text \<open>
  The class has two private fields, \<open>apps\<close> (the constructor's argument) and
  \<open>mappedApps\<close>. \<^verbatim>\<open>Array.prototype.find\<close> returns the first element that satisfies the
  predicate, or \<^verbatim>\<open>undefined\<close>; \<open>None\<close> stands for \<^verbatim>\<open>undefined\<close>.
\<close>

record RokuAppMap =
  apps :: "RokuApp list"
  mappedApps :: "MappedApp list"

definition new_RokuAppMap :: "RokuApp list \<Rightarrow> RokuAppMap" where
  "new_RokuAppMap as = \<lparr> apps = as, mappedApps = createMappedApps as \<rparr>"

definition getAppFromRokuId :: "RokuAppMap \<Rightarrow> js_string \<Rightarrow> MappedApp option" where
  "getAppFromRokuId this identifier = find (\<lambda>x. rokuAppId x = identifier) (mappedApps this)"

definition getAppFromId :: "RokuAppMap \<Rightarrow> int \<Rightarrow> MappedApp option" where
  "getAppFromId this identifier = find (\<lambda>x. id_m x = identifier) (mappedApps this)"

definition getApps :: "RokuAppMap \<Rightarrow> MappedApp list" where
  "getApps this = mappedApps this"

text \<open>
  The methods with the object threaded through, as a caller sees them: a call takes the
  object and gives back a reply and the object after the call. No method body assigns
  to a field or writes to an array.
\<close>

datatype call = GetAppFromRokuId js_string | GetAppFromId int | GetApps

datatype reply = App "MappedApp option" | Apps "MappedApp list"

fun invoke :: "call \<Rightarrow> RokuAppMap \<Rightarrow> reply \<times> RokuAppMap" where
  "invoke (GetAppFromRokuId identifier) this = (App (getAppFromRokuId this identifier), this)"
| "invoke (GetAppFromId identifier) this = (App (getAppFromId this identifier), this)"
| "invoke GetApps this = (Apps (getApps this), this)"

fun invoke_all :: "call list \<Rightarrow> RokuAppMap \<Rightarrow> reply list \<times> RokuAppMap" where
  "invoke_all [] this = ([], this)"
| "invoke_all (c # cs) this =
     (let (r, this') = invoke c this; (rs, this'') = invoke_all cs this' in (r # rs, this''))"

section \<open>roku-homebridge-platform.ts\<close>

text \<open>
  \<open>createClientInfoFromClient\<close> fetches the application list of the device and pushes
  an application for the Home screen onto it. \<open>homeScreenActiveId\<close> is a constant of
  \<^verbatim>\<open>settings.ts\<close>; it is a parameter here.
\<close>

definition homeApp :: "js_string \<Rightarrow> RokuApp" where
  "homeApp homeScreenActiveId =
     \<lparr> id_r = homeScreenActiveId, name_r = utf16 ''Home'', type_r = utf16 ''Home'',
       version_r = utf16 ''1'' \<rparr>"

definition clientInfo_apps :: "js_string \<Rightarrow> RokuApp list \<Rightarrow> RokuApp list" where
  "clientInfo_apps homeScreenActiveId fetched = fetched @ [homeApp homeScreenActiveId]"

section \<open>roku-homebridge-accessory.ts\<close>

text \<open>The constructor: \<^verbatim>\<open>this.applicationMap = new RokuAppMap(clientInfo.apps)\<close>.\<close>

definition applicationMap :: "js_string \<Rightarrow> RokuApp list \<Rightarrow> RokuAppMap" where
  "applicationMap homeScreenActiveId fetched =
     new_RokuAppMap (clientInfo_apps homeScreenActiveId fetched)"

text \<open>
  \<open>configureTelevisionApplicationInputs\<close>:
  \<^verbatim>\<open>this.applicationMap.getApps().filter((x) => !this.excludedApps.includes(x.name))\<close>.
  \<^verbatim>\<open>includes\<close> on an array of strings is membership by string equality.
\<close>

definition includes_arr :: "js_string list \<Rightarrow> js_string \<Rightarrow> bool" where
  "includes_arr xs x = list_ex (\<lambda>y. y = x) xs"

definition inputApps :: "js_string list \<Rightarrow> RokuAppMap \<Rightarrow> MappedApp list" where
  "inputApps excludedApps this = filter (\<lambda>x. \<not> includes_arr excludedApps (name_m x)) (getApps this)"

text \<open>
  The accessory hands the numeric id to the host platform:
  \<^verbatim>\<open>setCharacteristic(this.Characteristic.Identifier, app.id)\<close> for every input and
  \<^verbatim>\<open>updateValue(mappedApp.id)\<close> on \<^verbatim>\<open>ActiveIdentifier\<close>. A characteristic with a numeric
  format takes the values between the least and the greatest value of that format.
  The two characteristics are declared by the host library and not by this
  repository, so the two bounds are parameters. The host library gives both
  characteristics the unsigned 32-bit format, whose bounds are 0 and 4294967295.
\<close>

definition within_format :: "int \<Rightarrow> int \<Rightarrow> int \<Rightarrow> bool" where
  "within_format minValue maxValue v = (minValue \<le> v \<and> v \<le> maxValue)"

section \<open>Record literals\<close>

text \<open>A raw record written with ASCII literals, for the concrete instances below.\<close>

definition rokuApp :: "string \<Rightarrow> string \<Rightarrow> string \<Rightarrow> string \<Rightarrow> RokuApp" where
  "rokuApp i n t v = \<lparr> id_r = utf16 i, name_r = utf16 n, type_r = utf16 t, version_r = utf16 v \<rparr>"

section \<open>Properties of the hash\<close>

lemma ToInt32_range: "- (2 ^ 31) \<le> ToInt32 x \<and> ToInt32 x < 2 ^ 31"
proof -
  have "0 \<le> x mod 4294967296" and "x mod 4294967296 < 4294967296"
    by simp_all
  then show ?thesis
    unfolding ToInt32_def Let_def by (simp del: pos_mod_sign pos_mod_bound)
qed

lemma band_self: "band a a = ToInt32 a"
  by (simp add: band_def)

lemma hash_step_range: "- (2 ^ 31) \<le> hash_step a b \<and> hash_step a b < 2 ^ 31"
  using ToInt32_range [of "hash_body a b"] by (simp add: hash_step_def Let_def band_self)

lemma hashCode_Nil: "hashCode [] = 0"
  by (simp add: hashCode_def)

lemma hashCode_snoc: "hashCode (s @ [b]) = hash_step (hashCode s) b"
  by (simp add: hashCode_def)

lemma ToInt32_cong: "x mod 2 ^ 32 = y mod 2 ^ 32 \<Longrightarrow> ToInt32 x = ToInt32 y"
  by (simp add: ToInt32_def)

lemma ToInt32_mod: "ToInt32 x mod 2 ^ 32 = x mod 2 ^ 32"
proof -
  have "(x mod 2 ^ 32 - 2 ^ 32) mod 2 ^ 32 = x mod (2 ^ 32 :: int)"
    by (simp only: mod_diff_right_eq [symmetric, of _ "2 ^ 32"] mod_self diff_zero mod_mod_trivial)
  then show ?thesis
    by (simp add: ToInt32_def Let_def)
qed

lemma hash_step_31: "hash_step a b = ToInt32 (a * 31 + charCodeAt0 b)"
proof -
  let ?N = "2 ^ 32 :: int"
  have "ToInt32 (ToInt32 a * 32) mod ?N = (ToInt32 a * 32) mod ?N"
    by (rule ToInt32_mod)
  also have "\<dots> = (ToInt32 a mod ?N * 32) mod ?N"
    by (simp only: mod_mult_left_eq)
  also have "\<dots> = (a mod ?N * 32) mod ?N"
    by (simp only: ToInt32_mod)
  also have "\<dots> = (a * 32) mod ?N"
    by (simp only: mod_mult_left_eq)
  finally have "(ToInt32 (ToInt32 a * 32) - a) mod ?N = (a * 32 - a) mod ?N"
    by (rule mod_diff_cong) (rule refl)
  then have "(ToInt32 (ToInt32 a * 32) - a + charCodeAt0 b) mod ?N
      = (a * 32 - a + charCodeAt0 b) mod ?N"
    by (rule mod_add_cong) (rule refl)
  then have "ToInt32 (ToInt32 (ToInt32 a * 32) - a + charCodeAt0 b)
      = ToInt32 (a * 32 - a + charCodeAt0 b)"
    by (rule ToInt32_cong)
  moreover have "a * 32 - a + charCodeAt0 b = a * 31 + charCodeAt0 b"
    by simp
  ultimately have "ToInt32 (ToInt32 (ToInt32 a * 32) - a + charCodeAt0 b)
      = ToInt32 (a * 31 + charCodeAt0 b)"
    by (simp only:)
  then show ?thesis
    by (simp add: hash_step_def hash_body_def shl_def band_self Let_def)
qed
lemma ToInt32_sint: "ToInt32 x = sint (word_of_int x :: 32 word)"
proof -
  define m where "m = x mod 4294967296"
  have m: "0 \<le> m" "m < 4294967296" by (simp_all add: m_def)
  have "(x + 2147483648) mod 4294967296 = (m + 2147483648) mod 4294967296"
    unfolding m_def by (simp add: mod_add_left_eq)
  also have "\<dots> = (if 2147483648 \<le> m then m - 2147483648 else m + 2147483648)"
  proof (cases "2147483648 \<le> m")
    case True
    then have "(m + 2147483648) mod 4294967296 = (m - 2147483648 + 4294967296) mod 4294967296" by (simp add: add.commute)
    also have "\<dots> = (m - 2147483648) mod 4294967296" by (simp only: mod_add_self2)
    also have "\<dots> = m - 2147483648" using True m by (intro mod_pos_pos_trivial) simp_all
    finally show ?thesis using True by simp
  next
    case False
    then show ?thesis using m by (simp add: mod_pos_pos_trivial)
  qed
  finally show ?thesis
    unfolding ToInt32_def Let_def int_word_sint by (simp add: m_def)
qed

lemma rolling_hash31_snoc: "rolling_hash31 (s @ [b]) = rolling_hash31 s * 31 + ucast b"
  by (simp add: rolling_hash31_def)

lemma hashCode_word: "hashCode s = sint (rolling_hash31 s)"
proof (induction s rule: rev_induct)
  case Nil
  show ?case by (simp add: hashCode_def rolling_hash31_def)
next
  case (snoc b s)
  show ?case
    by (simp add: hashCode_snoc hash_step_31 ToInt32_sint snoc charCodeAt0_def
        rolling_hash31_snoc)
qed

lemma hashCode_range: "- (2 ^ 31) \<le> hashCode s \<and> hashCode s < 2 ^ 31"
proof (cases s rule: rev_cases)
  case Nil
  then show ?thesis by (simp add: hashCode_Nil)
next
  case (snoc t b)
  then show ?thesis
    using hash_step_range [of "hashCode t" b] by (simp add: hashCode_snoc)
qed

lemma charCodeAt0_range: "0 \<le> charCodeAt0 b \<and> charCodeAt0 b < 2 ^ 16"
  using uint_bounded [of b] by (simp add: charCodeAt0_def)

lemma hash_body_exact:
  assumes "- (2 ^ 31) \<le> a" and "a < 2 ^ 31"
  shows "\<bar>hash_body a b\<bar> < 2 ^ 53"
proof -
  have "- (2 ^ 31) \<le> shl a 5 \<and> shl a 5 < 2 ^ 31"
    unfolding shl_def by (rule ToInt32_range)
  with assms charCodeAt0_range [of b] show ?thesis
    by (simp add: hash_body_def abs_less_iff)
qed

lemma hash_step_exact: "\<bar>hash_body (hashCode s) b\<bar> < 2 ^ 53"
  using hashCode_range [of s] by (intro hash_body_exact) simp_all


lemmas hash_eval = hashCode_def hash_step_def hash_body_def shl_def band_def ToInt32_def
  charCodeAt0_def utf16_def

text \<open>
  C4 as stated does not hold for the unsigned 32-bit format of the two identifier
  characteristics: the string \<open>polygenelubricants\<close> hashes to \<open>-2^31\<close>, which is
  below the least value 0 of that format.
\<close>

theorem hashCode_format_counterexample:
  "hashCode (utf16 ''polygenelubricants'') = - 2147483648
   \<and> \<not> within_format 0 4294967295 (hashCode (utf16 ''polygenelubricants''))"
  by (simp add: hash_eval within_format_def)

text \<open>
  C4, as the code has it. \<open>hashCode\<close> is the rolling hash wrapped to a signed 32-bit
  integer: the empty string hashes to 0, every further code unit turns the hash \<open>h\<close>
  into \<open>h * 31\<close> plus the character code, wrapped by the final \<^verbatim>\<open>a & a\<close>, and the
  result is the signed reading of the 32-bit rolling hash. So the result lies between
  \<open>-2^31\<close> and \<open>2^31 - 1\<close>. It is within the range of every format whose bounds
  include that interval, and within the unsigned 32-bit format exactly when it is not
  negative.
\<close>

theorem hashCode_rolling_int32:
  "hashCode [] = 0
   \<and> (\<forall>b. hashCode (s @ [b]) = ToInt32 (hashCode s * 31 + charCodeAt0 b))
   \<and> hashCode s = sint (rolling_hash31 s)
   \<and> - (2 ^ 31) \<le> hashCode s \<and> hashCode s \<le> 2 ^ 31 - 1
   \<and> (\<forall>minValue maxValue. minValue \<le> - (2 ^ 31) \<and> 2 ^ 31 - 1 \<le> maxValue
          \<longrightarrow> within_format minValue maxValue (hashCode s))
   \<and> (within_format 0 4294967295 (hashCode s) \<longleftrightarrow> 0 \<le> hashCode s)"
proof -
  have r: "- (2 ^ 31) \<le> hashCode s \<and> hashCode s < 2 ^ 31"
    by (rule hashCode_range)
  have "\<forall>b. hashCode (s @ [b]) = ToInt32 (hashCode s * 31 + charCodeAt0 b)"
    by (simp add: hashCode_snoc hash_step_31)
  moreover have "hashCode s = sint (rolling_hash31 s)"
    by (rule hashCode_word)
  moreover from r have "\<forall>minValue maxValue. minValue \<le> - (2 ^ 31) \<and> 2 ^ 31 - 1 \<le> maxValue
      \<longrightarrow> within_format minValue maxValue (hashCode s)"
    by (auto simp: within_format_def)
  moreover from r have "within_format 0 4294967295 (hashCode s) \<longleftrightarrow> 0 \<le> hashCode s"
    by (auto simp: within_format_def)
  ultimately show ?thesis
    using r by (simp add: hashCode_Nil)
qed

theorem hashCode_rolling_int32_witness:
  "hashCode (utf16 ''Aa'') = 2112
   \<and> hashCode (utf16 ''Aa'' @ [of_char CHR ''x'']) = ToInt32 (2112 * 31 + 120)
   \<and> (- (2 ^ 31) :: int) \<le> - (2 ^ 31) \<and> (2 ^ 31 - 1 :: int) \<le> 2 ^ 31 - 1
   \<and> within_format (- (2 ^ 31)) (2 ^ 31 - 1) (hashCode (utf16 ''Aa''))
   \<and> within_format 0 4294967295 (hashCode (utf16 ''Aa''))"
proof -
  have h: "hashCode (utf16 ''Aa'') = 2112"
    by (simp add: hash_eval)
  have c: "charCodeAt0 (of_char CHR ''x'') = 120"
    by (simp add: charCodeAt0_def)
  from hashCode_rolling_int32 [of "utf16 ''Aa''"]
  have "hashCode (utf16 ''Aa'' @ [of_char CHR ''x''])
      = ToInt32 (hashCode (utf16 ''Aa'') * 31 + charCodeAt0 (of_char CHR ''x''))"
    and "within_format (- (2 ^ 31)) (2 ^ 31 - 1) (hashCode (utf16 ''Aa''))"
    and "within_format 0 4294967295 (hashCode (utf16 ''Aa'')) \<longleftrightarrow> 0 \<le> hashCode (utf16 ''Aa'')"
    by blast+
  with h c show ?thesis
    by simp
qed

section \<open>Runs of the hash loop\<close>

lemma reduce_run_foldl: "reduce_run a bs r \<longleftrightarrow> r = foldl hash_step a bs"
proof (induction bs arbitrary: a)
  case Nil
  show ?case by (auto intro: reduce_run.intros elim: reduce_run.cases)
next
  case (Cons b bs)
  have "reduce_run a (b # bs) r \<longleftrightarrow> reduce_run (hash_step a b) bs r"
    by (auto intro: reduce_run.intros elim: reduce_run.cases)
  with Cons show ?case by simp
qed

lemma hashCode_run_iff: "hashCode_run s r \<longleftrightarrow> r = hashCode s"
  by (simp add: hashCode_run_def hashCode_def reduce_run_foldl)


section \<open>Properties of the index\<close>

lemma createMappedApps_map: "createMappedApps as = map asMappedApp as"
  by (simp add: createMappedApps_def asMappedApp_def)

lemma asMappedApp_fields:
  "asMappedApp a = \<lparr> id_m = hashCode (id_r a), rokuAppId = id_r a,
      name_m = name_r a, type_m = type_r a, version_m = version_r a \<rparr>"
  by (simp add: createMappedApps_def asMappedApp_def)

text \<open>
  C3. \<open>hashCode\<close> is total and deterministic: on every string the loop has a run,
  any two runs on the same string end with the same integer, and the numeric id of a
  mapped record is that integer whatever the other fields of the record are.
\<close>

theorem hashCode_deterministic:
  "hashCode_run s (hashCode s)
   \<and> (\<forall>n m. hashCode_run s n \<longrightarrow> hashCode_run s m \<longrightarrow> n = m)
   \<and> (\<forall>a. id_r a = s \<longrightarrow> id_m (asMappedApp a) = hashCode s)"
  by (simp add: hashCode_run_iff asMappedApp_fields)

theorem hashCode_deterministic_witness:
  "hashCode_run (utf16 ''12'') 1569
   \<and> id_r (rokuApp ''12'' ''Netflix'' ''appl'' ''1'') = utf16 ''12''
   \<and> id_m (asMappedApp (rokuApp ''12'' ''Netflix'' ''appl'' ''1'')) = 1569"
proof -
  have h: "hashCode (utf16 ''12'') = 1569"
    by (simp add: hash_eval)
  have r: "id_r (rokuApp ''12'' ''Netflix'' ''appl'' ''1'') = utf16 ''12''"
    by (simp add: rokuApp_def)
  from hashCode_deterministic [of "utf16 ''12''"] h r show ?thesis
    by simp
qed

lemma invoke_frame: "snd (invoke c this) = this"
  by (cases c) simp_all

lemma invoke_all_frame: "snd (invoke_all cs this) = this"
proof (induction cs arbitrary: this)
  case Nil
  show ?case by simp
next
  case (Cons c cs)
  have "snd (invoke c this) = this" by (rule invoke_frame)
  with Cons show ?case
    by (simp add: split_beta Let_def)
qed

text \<open>
  C8. No method changes the object: after one call, and after any sequence of calls
  on a freshly built \<open>RokuAppMap\<close>, the object is the one that was built, and
  \<open>getApps\<close> still returns the whole index in build order.
\<close>

theorem index_never_mutated:
  "snd (invoke c this) = this
   \<and> snd (invoke_all cs (new_RokuAppMap as)) = new_RokuAppMap as
   \<and> fst (invoke GetApps (snd (invoke_all cs (new_RokuAppMap as)))) = Apps (createMappedApps as)"
  by (simp add: invoke_frame invoke_all_frame getApps_def new_RokuAppMap_def)

text \<open>
  C2. With the Home application pushed onto the fetched list before the map is
  constructed, \<open>getAppFromRokuId\<close> of \<open>homeScreenActiveId\<close> returns an entry of the
  index, for every fetched list, the empty one included.
\<close>

theorem home_lookup_succeeds:
  "\<exists>m. getAppFromRokuId (applicationMap h fetched) h = Some m \<and> rokuAppId m = h
       \<and> m \<in> set (getApps (applicationMap h fetched))"
proof -
  let ?idx = "getApps (applicationMap h fetched)"
  have "asMappedApp (homeApp h) \<in> set ?idx"
    by (simp add: getApps_def applicationMap_def new_RokuAppMap_def clientInfo_apps_def
        createMappedApps_map)
  moreover have "rokuAppId (asMappedApp (homeApp h)) = h"
    by (simp add: asMappedApp_fields homeApp_def)
  ultimately have "find (\<lambda>x. rokuAppId x = h) ?idx \<noteq> None"
    by (auto simp: find_None_iff)
  then obtain m where m: "find (\<lambda>x. rokuAppId x = h) ?idx = Some m"
    by auto
  then have "rokuAppId m = h \<and> m \<in> set ?idx"
    by (auto simp: find_Some_iff)
  with m show ?thesis
    by (auto simp: getAppFromRokuId_def getApps_def)
qed

text \<open>
  C5. The index built from \<open>n\<close> fetched records and the Home application has
  \<open>n + 1\<close> entries, one per record and in the order of the input; nothing is merged
  or dropped, whatever the ids hash to.
\<close>

theorem buildIndex_complete:
  "getApps (applicationMap h fetched) = map asMappedApp fetched @ [asMappedApp (homeApp h)]
   \<and> length (getApps (applicationMap h fetched)) = length fetched + 1
   \<and> map rokuAppId (getApps (applicationMap h fetched)) = map id_r fetched @ [h]
   \<and> length (getApps (new_RokuAppMap as)) = length as
   \<and> map rokuAppId (getApps (new_RokuAppMap as)) = map id_r as"
  by (simp add: getApps_def applicationMap_def new_RokuAppMap_def clientInfo_apps_def
      createMappedApps_map asMappedApp_fields homeApp_def comp_def)

text \<open>
  C7. The mapped application of a raw record \<open>r\<close> has \<open>rokuAppId\<close> equal to the raw
  id, \<open>id\<close> equal to the hash of the raw id, and \<open>name\<close>, \<open>type\<close> and \<open>version\<close>
  copied from \<open>r\<close>; every entry of an index is made this way.
\<close>

theorem mapped_fields:
  "rokuAppId (asMappedApp r) = id_r r
   \<and> id_m (asMappedApp r) = hashCode (id_r r)
   \<and> name_m (asMappedApp r) = name_r r
   \<and> type_m (asMappedApp r) = type_r r
   \<and> version_m (asMappedApp r) = version_r r
   \<and> createMappedApps as = map asMappedApp as
   \<and> getApps (new_RokuAppMap as) = map asMappedApp as"
  by (simp add: asMappedApp_fields createMappedApps_map getApps_def new_RokuAppMap_def)



section \<open>Lookups and the list of inputs\<close>

lemma includes_arr_iff: "includes_arr xs x \<longleftrightarrow> x \<in> set xs"
  by (auto simp: includes_arr_def list_ex_iff)

lemma inputApps_filter:
  "inputApps E this = filter (\<lambda>x. name_m x \<notin> set E) (getApps this)"
  by (simp add: inputApps_def includes_arr_iff)

lemma count_list_filter:
  "count_list (filter P xs) x = (if P x then count_list xs x else 0)"
  by (induction xs) auto

text \<open>
  C9. The list of inputs configured by the accessory, \<open>getApps\<close> filtered by
  "name not in \<open>excludedApps\<close>", has no entry with an excluded name, has every entry
  of the index whose name is not excluded (as often as the index has it), and keeps
  the build order.
\<close>

theorem exclusion_filter:
  "(\<forall>m \<in> set (inputApps E this). name_m m \<notin> set E)
   \<and> (\<forall>m \<in> set (getApps this). name_m m \<notin> set E \<longrightarrow> m \<in> set (inputApps E this))
   \<and> subseq (inputApps E this) (getApps this)
   \<and> (\<forall>m. name_m m \<notin> set E \<longrightarrow>
          count_list (inputApps E this) m = count_list (getApps this) m)"
  by (simp add: inputApps_filter count_list_filter)

lemmas index_eval = getApps_def applicationMap_def new_RokuAppMap_def clientInfo_apps_def
  createMappedApps_def asMappedApp_def homeApp_def rokuApp_def getAppFromId_def
  getAppFromRokuId_def

theorem exclusion_filter_witness:
  "asMappedApp (rokuApp ''13'' ''Prime Video'' ''appl'' ''2'')
     \<in> set (getApps (applicationMap (utf16 ''home.id'')
          [rokuApp ''12'' ''Netflix'' ''appl'' ''1'', rokuApp ''13'' ''Prime Video'' ''appl'' ''2'']))
   \<and> name_m (asMappedApp (rokuApp ''13'' ''Prime Video'' ''appl'' ''2'')) \<notin> set [utf16 ''Netflix'']
   \<and> asMappedApp (rokuApp ''13'' ''Prime Video'' ''appl'' ''2'')
     \<in> set (inputApps [utf16 ''Netflix''] (applicationMap (utf16 ''home.id'')
          [rokuApp ''12'' ''Netflix'' ''appl'' ''1'', rokuApp ''13'' ''Prime Video'' ''appl'' ''2'']))
   \<and> name_m (asMappedApp (rokuApp ''12'' ''Netflix'' ''appl'' ''1'')) \<in> set [utf16 ''Netflix'']
   \<and> asMappedApp (rokuApp ''12'' ''Netflix'' ''appl'' ''1'')
     \<notin> set (inputApps [utf16 ''Netflix''] (applicationMap (utf16 ''home.id'')
          [rokuApp ''12'' ''Netflix'' ''appl'' ''1'', rokuApp ''13'' ''Prime Video'' ''appl'' ''2'']))"
proof -
  let ?idx = "applicationMap (utf16 ''home.id'')
    [rokuApp ''12'' ''Netflix'' ''appl'' ''1'', rokuApp ''13'' ''Prime Video'' ''appl'' ''2'']"
  let ?p = "asMappedApp (rokuApp ''13'' ''Prime Video'' ''appl'' ''2'')"
  let ?n = "asMappedApp (rokuApp ''12'' ''Netflix'' ''appl'' ''1'')"
  have a: "?p \<in> set (getApps ?idx)"
    by (simp add: index_eval)
  have b: "name_m ?p \<notin> set [utf16 ''Netflix'']"
    by (simp add: index_eval utf16_def)
  have c: "name_m ?n \<in> set [utf16 ''Netflix'']"
    by (simp add: index_eval)
  from exclusion_filter [of "[utf16 ''Netflix'']" ?idx] a b c show ?thesis
    by blast
qed

text \<open>
  C10. When several entries of the index have the key that is looked up, both lookups
  return the first of them in build order: an entry at position \<open>i\<close> is returned when
  no entry before it has the key, whatever comes after it.
\<close>

theorem first_entry_wins:
  "(i < length (getApps this) \<and> id_m (getApps this ! i) = k
      \<and> (\<forall>j<i. id_m (getApps this ! j) \<noteq> k)
      \<longrightarrow> getAppFromId this k = Some (getApps this ! i))
   \<and> (i < length (getApps this) \<and> rokuAppId (getApps this ! i) = s
      \<and> (\<forall>j<i. rokuAppId (getApps this ! j) \<noteq> s)
      \<longrightarrow> getAppFromRokuId this s = Some (getApps this ! i))"
  by (auto simp: getAppFromId_def getAppFromRokuId_def getApps_def find_Some_iff)

theorem first_entry_wins_witness:
  "id_m (asMappedApp (rokuApp ''Aa'' ''First'' ''appl'' ''1'')) = 2112
   \<and> id_m (asMappedApp (rokuApp ''BB'' ''Second'' ''appl'' ''1'')) = 2112
   \<and> getAppFromId (new_RokuAppMap
        [rokuApp ''Aa'' ''First'' ''appl'' ''1'', rokuApp ''BB'' ''Second'' ''appl'' ''1'']) 2112
      = Some (asMappedApp (rokuApp ''Aa'' ''First'' ''appl'' ''1''))
   \<and> getAppFromRokuId (new_RokuAppMap
        [rokuApp ''12'' ''Netflix'' ''appl'' ''1'', rokuApp ''12'' ''Copy'' ''appl'' ''2''])
        (utf16 ''12'')
      = Some (asMappedApp (rokuApp ''12'' ''Netflix'' ''appl'' ''1''))
   \<and> asMappedApp (rokuApp ''Aa'' ''First'' ''appl'' ''1'')
      \<noteq> asMappedApp (rokuApp ''BB'' ''Second'' ''appl'' ''1'')
   \<and> asMappedApp (rokuApp ''12'' ''Netflix'' ''appl'' ''1'')
      \<noteq> asMappedApp (rokuApp ''12'' ''Copy'' ''appl'' ''2'')"
proof -
  let ?A = "rokuApp ''Aa'' ''First'' ''appl'' ''1''"
  let ?B = "rokuApp ''BB'' ''Second'' ''appl'' ''1''"
  let ?N = "rokuApp ''12'' ''Netflix'' ''appl'' ''1''"
  let ?C = "rokuApp ''12'' ''Copy'' ''appl'' ''2''"
  have a: "id_m (asMappedApp ?A) = 2112"
    by (simp add: index_eval hash_eval)
  have b: "id_m (asMappedApp ?B) = 2112"
    by (simp add: index_eval hash_eval)
  have g1: "getApps (new_RokuAppMap [?A, ?B]) = [asMappedApp ?A, asMappedApp ?B]"
    by (simp add: getApps_def new_RokuAppMap_def createMappedApps_map)
  have g2: "getApps (new_RokuAppMap [?N, ?C]) = [asMappedApp ?N, asMappedApp ?C]"
    by (simp add: getApps_def new_RokuAppMap_def createMappedApps_map)
  have n: "rokuAppId (asMappedApp ?N) = utf16 ''12''"
    by (simp add: asMappedApp_fields rokuApp_def)
  from first_entry_wins [of 0 "new_RokuAppMap [?A, ?B]" 2112] a g1
  have "getAppFromId (new_RokuAppMap [?A, ?B]) 2112 = Some (asMappedApp ?A)"
    by simp
  moreover from first_entry_wins [of 0 "new_RokuAppMap [?N, ?C]" _ "utf16 ''12''"] n g2
  have "getAppFromRokuId (new_RokuAppMap [?N, ?C]) (utf16 ''12'') = Some (asMappedApp ?N)"
    by simp
  moreover have "asMappedApp ?A \<noteq> asMappedApp ?B" and "asMappedApp ?N \<noteq> asMappedApp ?C"
    by (simp_all add: asMappedApp_fields rokuApp_def utf16_def)
  ultimately show ?thesis using a b by simp
qed



lemma find_in_set:
  assumes "m \<in> set xs" and "P m"
  shows "\<exists>m'. find P xs = Some m' \<and> m' \<in> set xs \<and> P m'"
proof -
  from assms have "find P xs \<noteq> None"
    by (auto simp: find_None_iff)
  then obtain m' where m': "find P xs = Some m'"
    by auto
  then have "m' \<in> set xs \<and> P m'"
    by (auto simp: find_Some_iff)
  with m' show ?thesis by blast
qed

text \<open>
  C1 as stated does not hold: the raw ids \<open>Aa\<close> and \<open>BB\<close> both hash to 2112, and in
  the index built from two records with these ids the second entry is in the index
  while \<open>getAppFromId\<close> of its numeric id returns the first entry.
\<close>

theorem round_trip_counterexample:
  "asMappedApp (rokuApp ''BB'' ''Second'' ''appl'' ''1'')
     \<in> set (getApps (new_RokuAppMap
          [rokuApp ''Aa'' ''First'' ''appl'' ''1'', rokuApp ''BB'' ''Second'' ''appl'' ''1'']))
   \<and> getAppFromId (new_RokuAppMap
          [rokuApp ''Aa'' ''First'' ''appl'' ''1'', rokuApp ''BB'' ''Second'' ''appl'' ''1''])
        (id_m (asMappedApp (rokuApp ''BB'' ''Second'' ''appl'' ''1'')))
      \<noteq> Some (asMappedApp (rokuApp ''BB'' ''Second'' ''appl'' ''1''))"
  by (simp add: index_eval hash_eval)

lemma lookup_same_key:
  assumes "m \<in> set (getApps this)"
  shows "(\<exists>m'. getAppFromId this (id_m m) = Some m' \<and> m' \<in> set (getApps this)
            \<and> id_m m' = id_m m)
   \<and> (\<exists>m'. getAppFromRokuId this (rokuAppId m) = Some m' \<and> m' \<in> set (getApps this)
            \<and> rokuAppId m' = rokuAppId m)"
proof -
  from assms have m: "m \<in> set (mappedApps this)"
    by (simp add: getApps_def)
  from find_in_set [OF m, of "\<lambda>x. id_m x = id_m m"]
  have "\<exists>a. getAppFromId this (id_m m) = Some a \<and> a \<in> set (getApps this) \<and> id_m a = id_m m"
    by (simp add: getAppFromId_def getApps_def)
  moreover from find_in_set [OF m, of "\<lambda>x. rokuAppId x = rokuAppId m"]
  have "\<exists>b. getAppFromRokuId this (rokuAppId m) = Some b \<and> b \<in> set (getApps this)
      \<and> rokuAppId b = rokuAppId m"
    by (simp add: getAppFromRokuId_def getApps_def)
  ultimately show ?thesis by simp
qed

text \<open>
  C1, as the code has it. For every entry \<open>m\<close> of the index built by the constructor,
  \<open>getAppFromId\<close> of \<open>m\<close>'s numeric id returns an entry of the index with that numeric
  id, and \<open>getAppFromRokuId\<close> of \<open>m\<close>'s raw id returns an entry with that raw id; the
  entry returned is \<open>m\<close> itself whenever no other entry of the index has the same
  key. This holds for the Home entry as for any other.
\<close>

theorem round_trip_unique_key:
  assumes "m \<in> set (getApps (new_RokuAppMap as))"
  shows "(\<exists>m'. getAppFromId (new_RokuAppMap as) (id_m m) = Some m'
            \<and> m' \<in> set (getApps (new_RokuAppMap as)) \<and> id_m m' = id_m m)
   \<and> (\<exists>m'. getAppFromRokuId (new_RokuAppMap as) (rokuAppId m) = Some m'
            \<and> m' \<in> set (getApps (new_RokuAppMap as)) \<and> rokuAppId m' = rokuAppId m)
   \<and> ((\<forall>x \<in> set (getApps (new_RokuAppMap as)). id_m x = id_m m \<longrightarrow> x = m)
        \<longrightarrow> getAppFromId (new_RokuAppMap as) (id_m m) = Some m)
   \<and> ((\<forall>x \<in> set (getApps (new_RokuAppMap as)). rokuAppId x = rokuAppId m \<longrightarrow> x = m)
        \<longrightarrow> getAppFromRokuId (new_RokuAppMap as) (rokuAppId m) = Some m)"
  using lookup_same_key [OF assms] by auto

theorem round_trip_unique_key_witness:
  "asMappedApp (homeApp (utf16 ''home.id''))
     \<in> set (getApps (applicationMap (utf16 ''home.id'') [rokuApp ''12'' ''Netflix'' ''appl'' ''1'']))
   \<and> getAppFromId (applicationMap (utf16 ''home.id'') [rokuApp ''12'' ''Netflix'' ''appl'' ''1''])
        (id_m (asMappedApp (homeApp (utf16 ''home.id''))))
      = Some (asMappedApp (homeApp (utf16 ''home.id'')))
   \<and> getAppFromRokuId (applicationMap (utf16 ''home.id'') [rokuApp ''12'' ''Netflix'' ''appl'' ''1''])
        (rokuAppId (asMappedApp (homeApp (utf16 ''home.id''))))
      = Some (asMappedApp (homeApp (utf16 ''home.id'')))"
proof -
  let ?idx = "applicationMap (utf16 ''home.id'') [rokuApp ''12'' ''Netflix'' ''appl'' ''1'']"
  let ?h = "asMappedApp (homeApp (utf16 ''home.id''))"
  have g: "getApps ?idx = [asMappedApp (rokuApp ''12'' ''Netflix'' ''appl'' ''1''), ?h]"
    by (simp add: getApps_def applicationMap_def new_RokuAppMap_def clientInfo_apps_def
        createMappedApps_map)
  have i: "id_m (asMappedApp (rokuApp ''12'' ''Netflix'' ''appl'' ''1'')) \<noteq> id_m ?h"
    by (simp add: index_eval hash_eval)
  have r: "rokuAppId (asMappedApp (rokuApp ''12'' ''Netflix'' ''appl'' ''1'')) \<noteq> rokuAppId ?h"
    by (simp add: index_eval utf16_def)
  have m: "?h \<in> set (getApps ?idx)"
    by (simp add: g)
  from round_trip_unique_key [of ?h "clientInfo_apps (utf16 ''home.id'') [rokuApp ''12'' ''Netflix'' ''appl'' ''1'']"]
    g i r m show ?thesis
    by (simp add: applicationMap_def)
qed

text \<open>
  C6. A numeric id that no entry of the index has makes \<open>getAppFromId\<close> return
  \<^verbatim>\<open>undefined\<close>, a raw id that no entry has makes \<open>getAppFromRokuId\<close> return
  \<^verbatim>\<open>undefined\<close>, and every string has a hash: the loop of \<open>hashCode\<close> ends with an
  integer on every input.
\<close>

theorem lookup_not_found:
  "(k \<notin> id_m ` set (getApps this) \<longrightarrow> getAppFromId this k = None)
   \<and> (s \<notin> rokuAppId ` set (getApps this) \<longrightarrow> getAppFromRokuId this s = None)
   \<and> (\<exists>n. hashCode_run t n)"
proof -
  have "hashCode_run t (hashCode t)"
    by (simp add: hashCode_run_iff)
  then show ?thesis
    by (auto simp: getAppFromId_def getAppFromRokuId_def getApps_def find_None_iff)
qed

theorem lookup_not_found_witness:
  "(7::int) \<notin> id_m ` set (getApps (applicationMap (utf16 ''home.id'')
        [rokuApp ''12'' ''Netflix'' ''appl'' ''1'']))
   \<and> getAppFromId (applicationMap (utf16 ''home.id'')
        [rokuApp ''12'' ''Netflix'' ''appl'' ''1'']) 7 = None
   \<and> utf16 ''99'' \<notin> rokuAppId ` set (getApps (applicationMap (utf16 ''home.id'')
        [rokuApp ''12'' ''Netflix'' ''appl'' ''1'']))
   \<and> getAppFromRokuId (applicationMap (utf16 ''home.id'')
        [rokuApp ''12'' ''Netflix'' ''appl'' ''1'']) (utf16 ''99'') = None"
proof -
  let ?idx = "applicationMap (utf16 ''home.id'') [rokuApp ''12'' ''Netflix'' ''appl'' ''1'']"
  have a: "(7::int) \<notin> id_m ` set (getApps ?idx)"
    by (simp add: index_eval hash_eval)
  have b: "utf16 ''99'' \<notin> rokuAppId ` set (getApps ?idx)"
    by (simp add: index_eval utf16_def)
  from lookup_not_found [of 7 ?idx "utf16 ''99''"] a b show ?thesis
    by blast
qed


end
